theory Spec2Isabelle
  imports Main "HOL-Library.Word"
begin

unbundle bit_operations_syntax

section \<open>Data model\<close>

text \<open>
  The package \<open>server\<close> (file \<open>server/server.go\<close>) works on byte slices, on Go's \<open>int\<close>
  and on an \<open>io.ReadWriteCloser\<close>. A byte is an 8-bit word. Go's \<open>int\<close> is modelled at
  its width on a 64-bit platform, as a 64-bit word read as two's complement (\<open>sint\<close>).
\<close>

type_synonym byte = "8 word"
type_synonym gint = "64 word"

text \<open>
  The error values the code can see: the two ends of stream of \<open>io.ReadFull\<close>, any
  other failure reported by the connection, and the error built by the older decoder.
\<close>

datatype error = EOF | ErrUnexpectedEOF | ConnError | FrameTooLarge

text \<open>
  A call of the code either returns an error value or panics. \<open>MakesliceLen\<close> is the
  runtime panic of \<open>make([]byte, n)\<close> with a negative \<open>n\<close>; \<open>NotHijacker\<close> is the failed
  type assertion \<open>w.(http.Hijacker)\<close>.
\<close>

datatype panic = MakesliceLen | NotHijacker

datatype failure = Err error | Panic panic

text \<open>
  The read side of a connection: the bytes the peer still delivers, and the error that
  \<open>Read\<close> reports once they are used up (\<open>EOF\<close> for a closed stream).
\<close>

record reader =
  pending :: "byte list"
  final_err :: error

section \<open>Library functions\<close>

text \<open>
  \<open>io.ReadFull(conn, buf)\<close> with \<open>len(buf) = n\<close>: exactly \<open>n\<close> bytes, or an error. With
  \<open>n = 0\<close> it returns at once without reading. When the stream ends early, an \<open>EOF\<close>
  after at least one byte becomes \<open>ErrUnexpectedEOF\<close>; every other error is passed on.
\<close>

definition ReadFull :: "reader \<Rightarrow> nat \<Rightarrow> (error + byte list) \<times> reader" where
  "ReadFull r n =
     (if n \<le> length (pending r) then
        (Inr (take n (pending r)), r\<lparr>pending := drop n (pending r)\<rparr>)
      else if pending r \<noteq> [] \<and> final_err r = EOF then
        (Inl ErrUnexpectedEOF, r\<lparr>pending := []\<rparr>)
      else
        (Inl (final_err r), r\<lparr>pending := []\<rparr>))"

text \<open>
  \<open>make([]byte, n)\<close> for an \<open>int\<close> \<open>n\<close>: a negative length panics. Memory is taken as
  unbounded: every non-negative length is granted (the Go runtime also refuses lengths
  above a platform limit, which no stream of this model reaches before it ends).
\<close>

definition make_bytes :: "gint \<Rightarrow> failure + nat" where
  "make_bytes n = (if sint n < 0 then Inl (Panic MakesliceLen) else Inr (nat (sint n)))"

section \<open>Frame codec\<close>

text \<open>
  The unmasking loop of \<open>readFrame\<close>:
  \<open>for i := 0; i < payloadLen; i++ { payload[i] ^= maskKey[i%4] }\<close>,
  as a recursion over the payload that carries the index \<open>i\<close>.
\<close>

fun unmask :: "byte list \<Rightarrow> nat \<Rightarrow> byte list \<Rightarrow> byte list" where
  "unmask maskKey i [] = []"
| "unmask maskKey i (b # bs) = (b XOR maskKey ! (i mod 4)) # unmask maskKey (Suc i) bs"

text \<open>
  Lines 98 to 115 of \<open>readFrame\<close>: the base length and the two extended lengths, built
  with shifts on \<open>int\<close>.
\<close>

definition readLength :: "byte \<Rightarrow> reader \<Rightarrow> (error + gint) \<times> reader" where
  "readLength h1 r =
     (let payloadLen = (ucast (h1 AND 0x7F) :: gint) in
      if payloadLen = 126 then
        (case ReadFull r 2 of
           (Inl e, r') \<Rightarrow> (Inl e, r')
         | (Inr extLen, r') \<Rightarrow>
             (Inr (push_bit 8 (ucast (extLen ! 0)) OR ucast (extLen ! 1)), r'))
      else if payloadLen = 127 then
        (case ReadFull r 8 of
           (Inl e, r') \<Rightarrow> (Inl e, r')
         | (Inr extLen, r') \<Rightarrow>
             (Inr (push_bit 56 (ucast (extLen ! 0)) OR push_bit 48 (ucast (extLen ! 1)) OR
                   push_bit 40 (ucast (extLen ! 2)) OR push_bit 32 (ucast (extLen ! 3)) OR
                   push_bit 24 (ucast (extLen ! 4)) OR push_bit 16 (ucast (extLen ! 5)) OR
                   push_bit 8 (ucast (extLen ! 6)) OR ucast (extLen ! 7)), r'))
      else (Inr payloadLen, r))"

text \<open>
  \<open>readFrame\<close>: two header bytes, the length, always a four-byte mask key, the payload
  buffer, the payload, and the unmasking loop. Every early return and the panic of the
  allocation are branches; the reader is returned as the call leaves it.
\<close>

definition readFrame :: "reader \<Rightarrow> (failure + byte list) \<times> reader" where
  "readFrame r =
     (case ReadFull r 2 of
        (Inl e, r1) \<Rightarrow> (Inl (Err e), r1)
      | (Inr header, r1) \<Rightarrow>
     (case readLength (header ! 1) r1 of
        (Inl e, r2) \<Rightarrow> (Inl (Err e), r2)
      | (Inr payloadLen, r2) \<Rightarrow>
     (case ReadFull r2 4 of
        (Inl e, r3) \<Rightarrow> (Inl (Err e), r3)
      | (Inr maskKey, r3) \<Rightarrow>
     (case make_bytes payloadLen of
        Inl p \<Rightarrow> (Inl p, r3)
      | Inr n \<Rightarrow>
     (case ReadFull r3 n of
        (Inl e, r4) \<Rightarrow> (Inl (Err e), r4)
      | (Inr payload, r4) \<Rightarrow> (Inr (unmask maskKey 0 payload), r4))))))"

text \<open>
  The header that \<open>writeFrame\<close> builds from \<open>payloadLen := len(message)\<close>. The
  comparisons are those of \<open>int\<close> (signed), \<open>>>\<close> on \<open>int\<close> is the arithmetic shift, and
  \<open>byte(...)\<close> keeps the low eight bits.
\<close>

definition frameHeader :: "gint \<Rightarrow> byte list" where
  "frameHeader payloadLen =
     (if payloadLen \<le>s 125 then [0x81, ucast payloadLen]
      else if payloadLen \<le>s 65535 then
        [0x81, 126, ucast (signed_drop_bit 8 payloadLen), ucast (payloadLen AND 0xFF)]
      else
        [0x81, 127,
         ucast (signed_drop_bit 56 payloadLen), ucast (signed_drop_bit 48 payloadLen),
         ucast (signed_drop_bit 40 payloadLen), ucast (signed_drop_bit 32 payloadLen),
         ucast (signed_drop_bit 24 payloadLen), ucast (signed_drop_bit 16 payloadLen),
         ucast (signed_drop_bit 8 payloadLen), ucast (payloadLen AND 0xFF)])"

text \<open>
  The write side of a connection: the buffers of the \<open>Write\<close> calls that succeeded, in
  order, and the error with which every \<open>Write\<close> fails, if it does. A failing \<open>Write\<close>
  delivers nothing.
\<close>

record writer =
  written :: "byte list list"
  write_err :: "error option"

definition Write :: "writer \<Rightarrow> byte list \<Rightarrow> error option \<times> writer" where
  "Write w buf =
     (case write_err w of
        Some e \<Rightarrow> (Some e, w)
      | None \<Rightarrow> (None, w\<lparr>written := written w @ [buf]\<rparr>))"

text \<open>
  \<open>writeFrame\<close>: one \<open>Write\<close> of \<open>append(header, message...)\<close>, whose error is returned
  as it is. The length of a slice is an \<open>int\<close>.
\<close>

definition writeFrame :: "writer \<Rightarrow> byte list \<Rightarrow> error option \<times> writer" where
  "writeFrame conn message =
     (let payloadLen = (of_nat (length message) :: gint) in
      Write conn (frameHeader payloadLen @ message))"

section \<open>The older codec\<close>

text \<open>
  The repository holds a second, older file of the same package (here \<open>part0\<close>) whose
  codec differs: \<open>readFrame\<close> refuses the 127 tier with an error, reads the mask key
  only when the MASK flag is set and unmasks only then; \<open>writeFrame\<close> always writes the
  two-byte header \<open>[0x81, byte(len(message))]\<close>. The example program imports
  \<open>server/server.go\<close>, and the properties below are about that file; the older
  functions are modelled to show where they differ.
\<close>

definition readFrame_part0 :: "reader \<Rightarrow> (failure + byte list) \<times> reader" where
  "readFrame_part0 r =
     (case ReadFull r 2 of
        (Inl e, r1) \<Rightarrow> (Inl (Err e), r1)
      | (Inr header, r1) \<Rightarrow>
     (case (let payloadLen = (ucast (header ! 1 AND 0x7F) :: gint) in
            if payloadLen = 126 then
              (case ReadFull r1 2 of
                 (Inl e, r') \<Rightarrow> (Inl e, r')
               | (Inr extLen, r') \<Rightarrow>
                   (Inr (push_bit 8 (ucast (extLen ! 0)) OR ucast (extLen ! 1)), r'))
            else if payloadLen = 127 then (Inl FrameTooLarge, r1)
            else (Inr payloadLen, r1)) of
        (Inl e, r2) \<Rightarrow> (Inl (Err e), r2)
      | (Inr payloadLen, r2) \<Rightarrow>
     (let isMasked = (header ! 1 AND 0x80 \<noteq> 0) in
      case (if isMasked then ReadFull r2 4 else (Inr [0, 0, 0, 0], r2)) of
        (Inl e, r3) \<Rightarrow> (Inl (Err e), r3)
      | (Inr maskKey, r3) \<Rightarrow>
     (case make_bytes payloadLen of
        Inl p \<Rightarrow> (Inl p, r3)
      | Inr n \<Rightarrow>
     (case ReadFull r3 n of
        (Inl e, r4) \<Rightarrow> (Inl (Err e), r4)
      | (Inr payload, r4) \<Rightarrow>
          (Inr (if isMasked then unmask maskKey 0 payload else payload), r4))))))"

definition writeFrame_part0 :: "writer \<Rightarrow> byte list \<Rightarrow> error option \<times> writer" where
  "writeFrame_part0 conn message =
     Write conn ([0x81, ucast (of_nat (length message) :: gint)] @ message)"

section \<open>Strings\<close>

text \<open>
  A Go string is a sequence of bytes; \<open>[]byte(s)\<close> and \<open>string(b)\<close> change the type and
  keep the bytes.
\<close>

definition bytes_of :: "string \<Rightarrow> byte list" where
  "bytes_of s = map (\<lambda>c. of_nat (of_char c)) s"

definition string_of :: "byte list \<Rightarrow> string" where
  "string_of bs = map (\<lambda>b. char_of (unat b)) bs"

text \<open>
  \<open>strings.ToLower\<close> on the ASCII letters. Bytes outside \<open>A\<close> to \<open>Z\<close> are left as they are
  (the library also maps the upper-case letters of other scripts).
\<close>

definition ToLower :: "string \<Rightarrow> string" where
  "ToLower s =
     map (\<lambda>c. if 65 \<le> (of_char c :: nat) \<and> (of_char c :: nat) \<le> 90
               then char_of ((of_char c :: nat) + 32) else c) s"

text \<open>\<open>strings.Contains(s, substr)\<close>: \<open>substr\<close> starts at some position of \<open>s\<close>.\<close>

fun Contains :: "string \<Rightarrow> string \<Rightarrow> bool" where
  "Contains [] substr = (substr = [])"
| "Contains (c # cs) substr =
     (take (length substr) (c # cs) = substr \<or> Contains cs substr)"

section \<open>Library functions of the handshake\<close>

text \<open>
  \<open>sha1.Sum\<close> of the Go library, after FIPS 180-4: the message is padded with \<open>0x80\<close>,
  zeros and its length in bits to a multiple of 64 bytes; every block is expanded to 80
  words and run through four times twenty rounds; the digest is the five state words,
  big-endian.
\<close>

type_synonym u32 = "32 word"

definition rotl :: "nat \<Rightarrow> u32 \<Rightarrow> u32" where
  "rotl n x = push_bit n x OR drop_bit (32 - n) x"

definition be32 :: "byte list \<Rightarrow> u32" where
  "be32 bs = push_bit 24 (ucast (bs ! 0)) OR push_bit 16 (ucast (bs ! 1)) OR
             push_bit 8 (ucast (bs ! 2)) OR ucast (bs ! 3)"

definition put32 :: "u32 \<Rightarrow> byte list" where
  "put32 x = [ucast (drop_bit 24 x), ucast (drop_bit 16 x), ucast (drop_bit 8 x), ucast x]"

definition put64 :: "64 word \<Rightarrow> byte list" where
  "put64 x = [ucast (drop_bit 56 x), ucast (drop_bit 48 x), ucast (drop_bit 40 x),
              ucast (drop_bit 32 x), ucast (drop_bit 24 x), ucast (drop_bit 16 x),
              ucast (drop_bit 8 x), ucast x]"

definition sha1_pad :: "byte list \<Rightarrow> byte list" where
  "sha1_pad m = m @ [0x80] @ replicate ((119 - length m mod 64) mod 64) 0 @
                put64 (of_nat (8 * length m))"

definition schedule :: "u32 list \<Rightarrow> u32 list" where
  "schedule w16 =
     foldl (\<lambda>w t. w @ [rotl 1 (w ! (t - 3) XOR w ! (t - 8) XOR w ! (t - 14) XOR w ! (t - 16))])
       w16 [16..<80]"

fun words_of :: "byte list \<Rightarrow> u32 list" where
  "words_of (b0 # b1 # b2 # b3 # bs) = be32 [b0, b1, b2, b3] # words_of bs"
| "words_of bs = []"

type_synonym sha_state = "u32 \<times> u32 \<times> u32 \<times> u32 \<times> u32"

definition Ch :: "u32 \<Rightarrow> u32 \<Rightarrow> u32 \<Rightarrow> u32" where
  "Ch b c d = (b AND c) OR (NOT b AND d)"
definition Parity :: "u32 \<Rightarrow> u32 \<Rightarrow> u32 \<Rightarrow> u32" where
  "Parity b c d = b XOR c XOR d"
definition Maj :: "u32 \<Rightarrow> u32 \<Rightarrow> u32 \<Rightarrow> u32" where
  "Maj b c d = (b AND c) OR (b AND d) OR (c AND d)"

fun rounds :: "(u32 \<Rightarrow> u32 \<Rightarrow> u32 \<Rightarrow> u32) \<Rightarrow> u32 \<Rightarrow> u32 list \<Rightarrow> sha_state \<Rightarrow> sha_state" where
  "rounds f k [] s = s"
| "rounds f k (w # ws) (a, b, c, d, e) =
     rounds f k ws (rotl 5 a + f b c d + e + k + w, a, rotl 30 b, c, d)"

definition sha1_block :: "sha_state \<Rightarrow> byte list \<Rightarrow> sha_state" where
  "sha1_block h blk =
     (let w = schedule (words_of blk) in
      case h of (h0, h1, h2, h3, h4) \<Rightarrow>
      case rounds Parity 0xCA62C1D6 (drop 60 w)
            (rounds Maj 0x8F1BBCDC (take 20 (drop 40 w))
              (rounds Parity 0x6ED9EBA1 (take 20 (drop 20 w))
                (rounds Ch 0x5A827999 (take 20 w) h))) of
        (a, b, c, d, e) \<Rightarrow> (h0 + a, h1 + b, h2 + c, h3 + d, h4 + e))"

function sha1_blocks :: "sha_state \<Rightarrow> byte list \<Rightarrow> sha_state" where
  "sha1_blocks h bs =
     (if length bs < 64 then h else sha1_blocks (sha1_block h (take 64 bs)) (drop 64 bs))"
  by pat_completeness auto
termination by (relation "measure (\<lambda>(h, bs). length bs)") auto

declare sha1_blocks.simps [simp del]

definition sha1_Sum :: "byte list \<Rightarrow> byte list" where
  "sha1_Sum m =
     (case sha1_blocks (0x67452301, 0xEFCDAB89, 0x98BADCFE, 0x10325476, 0xC3D2E1F0) (sha1_pad m) of
        (h0, h1, h2, h3, h4) \<Rightarrow> put32 h0 @ put32 h1 @ put32 h2 @ put32 h3 @ put32 h4)"

text \<open>
  \<open>base64.StdEncoding.EncodeToString\<close>, after RFC 4648: three bytes give four characters
  of the standard alphabet; a last group of one or two bytes is padded with \<open>=\<close>.
\<close>

definition encodeStd :: string where
  "encodeStd = ''ABCDEFGHIJKLMNOPQRSTUVWXYZabcdefghijklmnopqrstuvwxyz0123456789+/''"

definition b64 :: "byte \<Rightarrow> char" where
  "b64 x = encodeStd ! unat x"

fun EncodeToString :: "byte list \<Rightarrow> string" where
  "EncodeToString (a # b # c # rest) =
     [b64 (drop_bit 2 a), b64 (push_bit 4 (a AND 0x03) OR drop_bit 4 b),
      b64 (push_bit 2 (b AND 0x0F) OR drop_bit 6 c), b64 (c AND 0x3F)] @ EncodeToString rest"
| "EncodeToString [a, b] =
     [b64 (drop_bit 2 a), b64 (push_bit 4 (a AND 0x03) OR drop_bit 4 b),
      b64 (push_bit 2 (b AND 0x0F)), CHR ''='']"
| "EncodeToString [a] =
     [b64 (drop_bit 2 a), b64 (push_bit 4 (a AND 0x03)), CHR ''='', CHR ''='']"
| "EncodeToString [] = []"

section \<open>Handshake and connection loop\<close>

datatype callback = OnConnect | OnMessage string | OnError error | OnClose

datatype effect =
    HttpError string nat
  | Hijacked
  | ConnWrite "byte list" "error option"
  | ConnClose
  | Call callback
  | Go string
  | CloseDone
  | Crash panic

fun callbacks :: "effect list \<Rightarrow> callback list" where
  "callbacks [] = []"
| "callbacks (Call c # es) = c # callbacks es"
| "callbacks (e # es) = callbacks es"

function readLoop :: "reader \<Rightarrow> effect list \<times> panic option" where
  "readLoop conn =
     (case readFrame conn of
        (Inl (Err err), conn') \<Rightarrow> ([Call (OnError err)], None)
      | (Inl (Panic p), conn') \<Rightarrow> ([], Some p)
      | (Inr msg, conn') \<Rightarrow>
          (case readLoop conn' of
             (es, p) \<Rightarrow> (Call (OnMessage (string_of msg)) # es, p)))"
  by pat_completeness auto
termination
  apply (relation "measure (\<lambda>conn. length (pending conn))")
   apply simp
  apply (auto simp add: readFrame_def ReadFull_def readLength_def Let_def
      split: if_splits prod.splits sum.splits)
  done

text \<open>
  \<open>handleWebSocket\<close>. The deferred calls run when the function leaves, last deferred
  first: \<open>OnClose\<close>, then \<open>conn.Close()\<close>; they also run when \<open>readFrame\<close> panics, after
  which the panic ends the program. \<open>pingLoop\<close> is started as a goroutine and stopped by
  \<open>close(done)\<close>; its writes happen at timer ticks and are not part of this trace.
\<close>

definition handleWebSocket :: "reader \<Rightarrow> effect list" where
  "handleWebSocket conn =
     [Call OnConnect, Go ''pingLoop''] @
     (case readLoop conn of
        (es, None) \<Rightarrow> es @ [CloseDone, Call OnClose, ConnClose]
      | (es, Some p) \<Rightarrow> es @ [Call OnClose, ConnClose, Crash p])"

text \<open>
  The request headers, read with \<open>r.Header.Get\<close>: the empty string for a header that is
  absent.
\<close>

type_synonym header = "string \<rightharpoonup> string"

definition Header_Get :: "header \<Rightarrow> string \<Rightarrow> string" where
  "Header_Get h k = (case h k of None \<Rightarrow> [] | Some v \<Rightarrow> v)"

text \<open>
  The response writer: not a \<open>http.Hijacker\<close> (the type assertion panics), one whose
  \<open>Hijack\<close> fails, or one that gives the connection, with its read and write sides.
\<close>

record conn =
  rd :: reader
  wr :: writer

datatype response_writer = NoHijacker | HijackFails | Hijackable conn

text \<open>\<open>WSConn.Send\<close>: the message as one text frame.\<close>

definition Send :: "conn \<Rightarrow> string \<Rightarrow> error option \<times> writer" where
  "Send c message = writeFrame (wr c) (bytes_of message)"

definition wsGUID :: string where
  "wsGUID = ''258EAFA5-E914-47DA-95CA-C5AB0DC85B11''"

definition crlf :: string where
  "crlf = [CHR 0x0D, CHR 0x0A]"

text \<open>
  \<open>UpgradeToWebSocket\<close>, as the sequence of its effects. The loop started with
  \<open>go handleWebSocket(conn, handler)\<close> runs after \<open>OnConnect\<close> has returned, so its
  effects follow in the trace.
\<close>

definition UpgradeToWebSocket :: "response_writer \<Rightarrow> header \<Rightarrow> effect list" where
  "UpgradeToWebSocket w h =
     (if ToLower (Header_Get h ''Upgrade'') \<noteq> ''websocket'' \<or>
         \<not> Contains (ToLower (Header_Get h ''Connection'')) ''upgrade''
      then [HttpError ''Invalid WebSocket handshake'' 400]
      else
        let key = Header_Get h ''Sec-WebSocket-Key'' in
        if key = [] then [HttpError ''Missing Sec-WebSocket-Key'' 400]
        else
          let hash = sha1_Sum (bytes_of (key @ wsGUID));
              acceptKey = EncodeToString hash
          in
          case w of
            NoHijacker \<Rightarrow> [Crash NotHijacker]
          | HijackFails \<Rightarrow> [HttpError ''Hijack failed'' 500]
          | Hijackable c \<Rightarrow>
              let response = ''HTTP/1.1 101 Switching Protocols'' @ crlf @
                             ''Upgrade: websocket'' @ crlf @
                             ''Connection: Upgrade'' @ crlf @
                             ''Sec-WebSocket-Accept: '' @ acceptKey @ crlf @ crlf
              in
              case Write (wr c) (bytes_of response) of
                (Some err, w') \<Rightarrow>
                  [Hijacked, ConnWrite (bytes_of response) (Some err), ConnClose]
              | (None, w') \<Rightarrow>
                  [Hijacked, ConnWrite (bytes_of response) None, Call OnConnect,
                   Go ''handleWebSocket''] @ handleWebSocket (rd c))"

declare readLoop.simps [simp del]

section \<open>The contract of the specification\<close>

text \<open>
  The definitions of this section follow the words of the specification, not the code;
  the code is compared with them below. A big-endian byte string read as a number, and
  the \<open>n\<close> big-endian bytes of a number.
\<close>

fun be_nat :: "byte list \<Rightarrow> nat" where
  "be_nat bs = foldl (\<lambda>a b. 256 * a + unat b) 0 bs"

fun be_bytes :: "nat \<Rightarrow> nat \<Rightarrow> byte list" where
  "be_bytes 0 L = []"
| "be_bytes (Suc n) L = be_bytes n (L div 256) @ [of_nat L]"

text \<open>
  The header of the encode contract for a payload of \<open>L\<close> bytes: \<open>[0x81, L]\<close>,
  \<open>[0x81, 126, L_hi, L_lo]\<close>, or \<open>0x81, 127\<close> and eight big-endian length bytes.
\<close>

definition specHeader :: "nat \<Rightarrow> byte list" where
  "specHeader L =
     (if L \<le> 125 then [0x81, of_nat L]
      else if L \<le> 65535 then 0x81 # 126 # be_bytes 2 L
      else 0x81 # 127 # be_bytes 8 L)"

text \<open>The header size of the length-tier rule.\<close>

definition headerSize :: "nat \<Rightarrow> nat" where
  "headerSize L = (if L \<le> 125 then 2 else if L \<le> 65535 then 4 else 10)"

text \<open>
  What a client does to a server frame before sending it back, in the round-trip test of
  the specification: mask the payload (byte \<open>i\<close> is XORed with \<open>maskKey[i % 4]\<close>), set
  the MASK bit of header byte 1, and put the four key bytes between header and payload.
\<close>

definition maskPayload :: "byte list \<Rightarrow> byte list \<Rightarrow> byte list" where
  "maskPayload maskKey payload =
     map (\<lambda>i. payload ! i XOR maskKey ! (i mod 4)) [0..<length payload]"

definition injectMask :: "byte list \<Rightarrow> byte list \<Rightarrow> byte list" where
  "injectMask maskKey frame =
     (let n = (if frame ! 1 = 126 then 4 else if frame ! 1 = 127 then 10 else 2) in
      (take n frame)[1 := frame ! 1 OR 0x80] @ maskKey @ maskPayload maskKey (drop n frame))"

text \<open>
  The decode contract, step 2: the base length is the low seven bits of header byte 1;
  126 announces two further length bytes and 127 eight, big-endian; any other base
  length is the true length itself.
\<close>

definition baseLength :: "byte \<Rightarrow> nat" where
  "baseLength h1 = unat (h1 AND 0x7F)"

definition extBytes :: "byte \<Rightarrow> nat" where
  "extBytes h1 = (if baseLength h1 = 126 then 2 else if baseLength h1 = 127 then 8 else 0)"

definition trueLength :: "byte \<Rightarrow> byte list \<Rightarrow> nat" where
  "trueLength h1 ext =
     (if baseLength h1 = 126 \<or> baseLength h1 = 127 then be_nat ext else baseLength h1)"

text \<open>The response that a successful handshake writes literally, around the token.\<close>

definition response101 :: "string \<Rightarrow> string" where
  "response101 token =
     ''HTTP/1.1 101 Switching Protocols'' @ crlf @ ''Upgrade: websocket'' @ crlf @
     ''Connection: Upgrade'' @ crlf @ ''Sec-WebSocket-Accept: '' @ token @ crlf @ crlf"

text \<open>
  A conforming upgrade request, with the key of the protocol specification's example.
\<close>

definition sampleHeader :: header where
  "sampleHeader = [''Upgrade'' \<mapsto> ''websocket'', ''Connection'' \<mapsto> ''keep-alive, Upgrade'',
                   ''Sec-WebSocket-Key'' \<mapsto> ''dGhlIHNhbXBsZSBub25jZQ=='']"

text \<open>A hijacked connection whose writes succeed and whose peer has closed the stream.\<close>

definition sampleConn :: conn where
  "sampleConn =
     \<lparr>rd = \<lparr>pending = [], final_err = EOF\<rparr>, wr = \<lparr>written = [], write_err = None\<rparr>\<rparr>"

section \<open>Properties of the frame codec\<close>

lemma shift_byte:
  assumes "L < 2 ^ 63"
  shows "(ucast (signed_drop_bit k (of_nat L :: gint)) :: byte) = of_nat (L div 2 ^ k)"
proof (rule bit_word_eqI)
  fix n assume n: "n < LENGTH(8)"
  have nb: "\<not> bit L 63" using assms by (simp add: bit_iff_odd)
  have hi: "\<not> bit L m" if "63 \<le> m" for m
  proof -
    have "L < 2 ^ m" using assms that
      by (meson less_le_trans one_le_numeral power_increasing)
    then show ?thesis by (simp add: bit_iff_odd)
  qed
  show "bit (ucast (signed_drop_bit k (of_nat L :: gint)) :: byte) n = bit (of_nat (L div 2 ^ k) :: byte) n"
    using n nb hi[of "k + n"]
    by (auto simp add: bit_simps bit_signed_drop_bit_iff simp flip: drop_bit_eq_div)
qed

lemma sint_of_nat_len:
  "L < 2 ^ 63 \<Longrightarrow> sint (of_nat L :: gint) = int L"
proof -
  assume a: "L < 2 ^ 63"
  have "sint (of_nat L :: gint) = signed_take_bit 63 (int L)"
    by (simp add: signed_of_nat)
  also have "\<dots> = int L"
  proof (rule signed_take_bit_int_eq_self)
    show "- (2 ^ 63) \<le> int L" by simp
    have "int L < int (2 ^ 63)" using a by (simp only: of_nat_less_iff)
    then show "int L < 2 ^ 63" by simp
  qed
  finally show ?thesis .
qed

lemma ucast_of_nat_byte: "(ucast (of_nat L :: gint) :: byte) = of_nat L"
  by (rule bit_word_eqI) (auto simp add: bit_simps)

lemma low_byte: "(ucast ((of_nat L :: gint) AND 0xFF) :: byte) = of_nat L"
proof -
  have m: "(0xFF :: gint) = mask 8" by (simp add: mask_eq_exp_minus_1)
  show ?thesis unfolding m
    by (rule bit_word_eqI) (auto simp add: bit_simps)
qed

lemma frameHeader_small:
  "L \<le> 125 \<Longrightarrow> frameHeader (of_nat L) = [0x81, of_nat L]"
  by (simp add: frameHeader_def word_sle_eq sint_of_nat_len ucast_of_nat_byte)

lemma frameHeader_medium:
  "125 < L \<Longrightarrow> L \<le> 65535 \<Longrightarrow>
   frameHeader (of_nat L) = [0x81, 126, of_nat (L div 2 ^ 8), of_nat L]"
  by (simp add: frameHeader_def word_sle_eq sint_of_nat_len shift_byte low_byte)

lemma frameHeader_large:
  "65535 < L \<Longrightarrow> L < 2 ^ 63 \<Longrightarrow>
   frameHeader (of_nat L) =
     [0x81, 127, of_nat (L div 2 ^ 56), of_nat (L div 2 ^ 48), of_nat (L div 2 ^ 40),
      of_nat (L div 2 ^ 32), of_nat (L div 2 ^ 24), of_nat (L div 2 ^ 16),
      of_nat (L div 2 ^ 8), of_nat L]"
  by (simp add: frameHeader_def word_sle_eq sint_of_nat_len shift_byte low_byte)

lemma unmask_length [simp]: "length (unmask k i p) = length p"
  by (induction p arbitrary: i) auto

lemma unmask_unmask: "unmask k i (unmask k i p) = p"
  by (induction p arbitrary: i) (auto simp add: xor.assoc)

lemma shift_or_byte: "push_bit 8 (x :: gint) OR ucast (b :: byte) = x * 256 + ucast b"
proof -
  have "push_bit 8 x + ucast b = push_bit 8 x OR ucast b"
    by (rule disjunctive_add) (auto simp add: bit_simps dest: bit_imp_le_length)
  then show ?thesis by (simp add: push_bit_eq_mult)
qed

lemma be_nat_2: "push_bit 8 (ucast e0) OR ucast e1 = (of_nat (be_nat [e0, e1]) :: gint)"
  by (simp add: shift_or_byte)

lemma be_nat_8:
  "push_bit 56 (ucast e0) OR push_bit 48 (ucast e1) OR push_bit 40 (ucast e2) OR
   push_bit 32 (ucast e3) OR push_bit 24 (ucast e4) OR push_bit 16 (ucast e5) OR
   push_bit 8 (ucast e6) OR ucast e7 = (of_nat (be_nat [e0, e1, e2, e3, e4, e5, e6, e7]) :: gint)"
proof -
  have "(of_nat (be_nat [e0, e1, e2, e3, e4, e5, e6, e7]) :: gint) =
    push_bit 8 (push_bit 8 (push_bit 8 (push_bit 8 (push_bit 8 (push_bit 8 (push_bit 8 (ucast e0)
      OR ucast e1) OR ucast e2) OR ucast e3) OR ucast e4) OR ucast e5) OR ucast e6) OR ucast e7"
    by (simp add: shift_or_byte)
  also have "\<dots> = push_bit 56 (ucast e0) OR push_bit 48 (ucast e1) OR push_bit 40 (ucast e2) OR
   push_bit 32 (ucast e3) OR push_bit 24 (ucast e4) OR push_bit 16 (ucast e5) OR
   push_bit 8 (ucast e6) OR ucast e7"
    by (simp add: push_bit_or or.assoc)
  finally show ?thesis by simp
qed

lemma readFrame_decoded:
  assumes "readLength h1 \<lparr>pending = tail, final_err = e\<rparr> =
             (Inr len, \<lparr>pending = maskKey @ body @ rest, final_err = e\<rparr>)"
    and "length maskKey = 4" and "0 \<le> sint len" and "length body = nat (sint len)"
  shows "readFrame \<lparr>pending = h0 # h1 # tail, final_err = e\<rparr> =
           (Inr (unmask maskKey 0 body), \<lparr>pending = rest, final_err = e\<rparr>)"
  using assms by (simp add: readFrame_def ReadFull_def make_bytes_def)

lemma unmask_map:
  "unmask k i p = map (\<lambda>j. p ! j XOR k ! ((i + j) mod 4)) [0..<length p]"
proof (induction p arbitrary: i)
  case Nil
  then show ?case by simp
next
  case (Cons b bs)
  have "[0..<length (b # bs)] = 0 # map Suc [0..<length bs]"
    by (simp add: upt_conv_Cons map_Suc_upt del: upt_Suc)
  then show ?case using Cons.IH [of "Suc i"] by (simp add: comp_def)
qed

lemma unmask_maskPayload: "unmask k 0 (maskPayload k p) = p"
proof -
  have "maskPayload k p = unmask k 0 p"
    by (simp add: maskPayload_def unmask_map)
  then show ?thesis by (simp add: unmask_unmask)
qed

lemma nat_bit_high: "L < 2 ^ m \<Longrightarrow> m \<le> n \<Longrightarrow> \<not> bit (L :: nat) n"
proof -
  assume a: "L < 2 ^ m" and b: "m \<le> n"
  have "(2::nat) ^ m \<le> 2 ^ n" using b by (simp add: power_increasing)
  then have "L < 2 ^ n" using a by linarith
  then show ?thesis by (simp add: bit_iff_odd)
qed

lemma be_nat_snoc: "be_nat (bs @ [b]) = 256 * be_nat bs + unat b"
  by simp

lemma be_nat_be_bytes: "be_nat (be_bytes n L) = L mod 256 ^ n"
proof (induction n arbitrary: L)
  case 0
  then show ?case by simp
next
  case (Suc n)
  have "be_nat (be_bytes (Suc n) L) = 256 * (L div 256 mod 256 ^ n) + L mod 256"
    using Suc.IH [of "L div 256"] by (simp add: unat_of_nat del: be_nat.simps add: be_nat_snoc)
  also have "\<dots> = L mod (256 * 256 ^ n)"
    by (simp add: mod_mult2_eq)
  finally show ?case by simp
qed

lemma be_bytes_2: "be_bytes 2 L = [of_nat (L div 2 ^ 8), of_nat L]"
proof -
  have "be_bytes 2 L = be_bytes (Suc (Suc 0)) L"
    by (simp add: numeral_2_eq_2)
  then show ?thesis by simp
qed

lemma div_256_shift: "(x :: nat) div 2 ^ k div 256 = x div 2 ^ (k + 8)"
  by (simp add: div_mult2_eq power_add)

lemma be_bytes_8:
  "be_bytes 8 L = [of_nat (L div 2 ^ 56), of_nat (L div 2 ^ 48), of_nat (L div 2 ^ 40),
      of_nat (L div 2 ^ 32), of_nat (L div 2 ^ 24), of_nat (L div 2 ^ 16),
      of_nat (L div 2 ^ 8), of_nat L]"
proof -
  have "(8 :: nat) = Suc (Suc (Suc (Suc (Suc (Suc (Suc (Suc 0)))))))"
    by simp
  then have n: "be_bytes 8 L = be_bytes (Suc (Suc (Suc (Suc (Suc (Suc (Suc (Suc 0)))))))) L"
    by (rule arg_cong)
  have d: "L div 256 = L div 2 ^ 8" by simp
  show ?thesis
    unfolding n be_bytes.simps d div_256_shift by simp
qed

lemma gint_of_nat_eq_iff:
  "L < 2 ^ 63 \<Longrightarrow> M < 2 ^ 63 \<Longrightarrow> (of_nat L :: gint) = of_nat M \<longleftrightarrow> L = M"
  by (metis sint_of_nat_len of_nat_eq_iff)

lemma unat_byte_of_nat: "L < 256 \<Longrightarrow> unat (of_nat L :: byte) = L"
  by (simp add: unat_of_nat)

lemma byte_of_nat_eq_iff:
  "L < 256 \<Longrightarrow> M < 256 \<Longrightarrow> (of_nat L :: byte) = of_nat M \<longleftrightarrow> L = M"
  by (metis unat_byte_of_nat)

lemma ucast_byte_of_nat: "L < 256 \<Longrightarrow> (ucast (of_nat L :: byte) :: gint) = of_nat L"
  by (simp add: unsigned_of_nat take_bit_nat_eq_self)

lemma low7:
  assumes "L < 128"
  shows "(ucast (((of_nat L :: byte) OR 0x80) AND 0x7F) :: gint) = of_nat L"
proof -
  have m: "(0x7F :: byte) = mask 7" by (simp add: mask_eq_exp_minus_1)
  have "((of_nat L :: byte) OR 0x80) AND 0x7F = of_nat L AND 0x7F"
    by (simp add: bit.conj_disj_distrib2)
  also have "\<dots> = take_bit 7 (of_nat L)"
    unfolding m by (simp only: take_bit_eq_mask)
  also have "\<dots> = of_nat (take_bit 7 L)"
    by (simp only: take_bit_of_nat)
  also have "\<dots> = of_nat L"
    using assms by (simp add: take_bit_nat_eq_self)
  finally show ?thesis using assms by (simp add: ucast_byte_of_nat)
qed

lemma readLength_small:
  assumes "L \<le> 125"
  shows "readLength ((of_nat L :: byte) OR 0x80) r = (Inr (of_nat L), r)"
proof -
  have a: "(of_nat L :: gint) \<noteq> 126" using gint_of_nat_eq_iff [of L 126] assms by simp
  have b: "(of_nat L :: gint) \<noteq> 127" using gint_of_nat_eq_iff [of L 127] assms by simp
  show ?thesis using assms a b by (simp add: readLength_def low7)
qed

lemma injectMask_small:
  assumes "L \<le> 125"
  shows "injectMask k (0x81 # of_nat L # p) = 0x81 # (of_nat L OR 0x80) # k @ maskPayload k p"
proof -
  have a: "(of_nat L :: byte) \<noteq> 126" using byte_of_nat_eq_iff [of L 126] assms by simp
  have b: "(of_nat L :: byte) \<noteq> 127" using byte_of_nat_eq_iff [of L 127] assms by simp
  show ?thesis using a b by (simp add: injectMask_def)
qed

lemma injectMask_medium:
  "injectMask k (0x81 # 126 # b1 # b0 # p) = 0x81 # 0xFE # b1 # b0 # k @ maskPayload k p"
  by (simp add: injectMask_def)

lemma injectMask_large:
  "injectMask k (0x81 # 127 # b7 # b6 # b5 # b4 # b3 # b2 # b1 # b0 # p) =
     0x81 # 0xFF # b7 # b6 # b5 # b4 # b3 # b2 # b1 # b0 # k @ maskPayload k p"
  by (simp add: injectMask_def)

lemma readLength_medium:
  "readLength 0xFE \<lparr>pending = [b1, b0] @ tail, final_err = e\<rparr> =
     (Inr (of_nat (be_nat [b1, b0])), \<lparr>pending = tail, final_err = e\<rparr>)"
  by (simp add: readLength_def ReadFull_def be_nat_2 del: be_nat.simps)

lemma readLength_large:
  "readLength 0xFF \<lparr>pending = [b7, b6, b5, b4, b3, b2, b1, b0] @ tail, final_err = e\<rparr> =
     (Inr (of_nat (be_nat [b7, b6, b5, b4, b3, b2, b1, b0])), \<lparr>pending = tail, final_err = e\<rparr>)"
  by (simp add: readLength_def ReadFull_def be_nat_8 del: be_nat.simps)

lemma encode_decode:
  assumes len: "length payload < 2 ^ 63" and key: "length maskKey = 4"
  shows "readFrame \<lparr>pending = injectMask maskKey (frameHeader (of_nat (length payload)) @ payload) @ rest,
                    final_err = e\<rparr> = (Inr payload, \<lparr>pending = rest, final_err = e\<rparr>)"
proof -
  let ?L = "length payload"
  let ?m = "maskPayload maskKey payload"
  have ml: "length ?m = ?L" by (simp add: maskPayload_def)
  have um: "unmask maskKey 0 ?m = payload" by (rule unmask_maskPayload)
  have pos: "0 \<le> sint (of_nat ?L :: gint)" and nat: "?L = nat (sint (of_nat ?L :: gint))"
    using len by (simp_all add: sint_of_nat_len)
  consider (small) "?L \<le> 125" | (medium) "125 < ?L" "?L \<le> 65535" | (large) "65535 < ?L"
    by linarith
  then show ?thesis
  proof cases
    case small
    have "readLength ((of_nat ?L :: byte) OR 0x80) \<lparr>pending = maskKey @ ?m @ rest, final_err = e\<rparr> =
            (Inr (of_nat ?L), \<lparr>pending = maskKey @ ?m @ rest, final_err = e\<rparr>)"
      using small by (rule readLength_small)
    from readFrame_decoded [OF this key pos] ml nat um
    show ?thesis
      using small by (simp add: frameHeader_small injectMask_small)
  next
    case medium
    have "be_nat (be_bytes 2 ?L) = ?L" using medium by (simp only: be_nat_be_bytes) simp
    then have b: "be_nat [of_nat (?L div 2 ^ 8), of_nat ?L] = ?L" by (simp only: be_bytes_2)
    have "readLength 0xFE \<lparr>pending = [of_nat (?L div 2 ^ 8), of_nat ?L] @ maskKey @ ?m @ rest, final_err = e\<rparr> =
            (Inr (of_nat ?L), \<lparr>pending = maskKey @ ?m @ rest, final_err = e\<rparr>)"
      by (simp only: readLength_medium b)
    from readFrame_decoded [OF this key pos] ml nat um
    show ?thesis
      using medium by (simp add: frameHeader_medium injectMask_medium)
  next
    case large
    have "be_nat (be_bytes 8 ?L) = ?L" using len by (simp only: be_nat_be_bytes) simp
    then have b: "be_nat [of_nat (?L div 2 ^ 56), of_nat (?L div 2 ^ 48), of_nat (?L div 2 ^ 40),
      of_nat (?L div 2 ^ 32), of_nat (?L div 2 ^ 24), of_nat (?L div 2 ^ 16),
      of_nat (?L div 2 ^ 8), of_nat ?L] = ?L" by (simp only: be_bytes_8)
    have "readLength 0xFF \<lparr>pending = [of_nat (?L div 2 ^ 56), of_nat (?L div 2 ^ 48), of_nat (?L div 2 ^ 40),
      of_nat (?L div 2 ^ 32), of_nat (?L div 2 ^ 24), of_nat (?L div 2 ^ 16),
      of_nat (?L div 2 ^ 8), of_nat ?L] @ maskKey @ ?m @ rest, final_err = e\<rparr> =
            (Inr (of_nat ?L), \<lparr>pending = maskKey @ ?m @ rest, final_err = e\<rparr>)"
      by (simp only: readLength_large b)
    from readFrame_decoded [OF this key pos] ml nat um
    show ?thesis
      using large len by (simp add: frameHeader_large injectMask_large)
  qed
qed

lemma frameHeader_spec:
  assumes "L < 2 ^ 63"
  shows "frameHeader (of_nat L) = specHeader L"
proof -
  consider (small) "L \<le> 125" | (medium) "125 < L" "L \<le> 65535" | (large) "65535 < L"
    by linarith
  then show ?thesis
  proof cases
    case small
    then show ?thesis by (simp add: frameHeader_small specHeader_def)
  next
    case medium
    then show ?thesis by (simp add: frameHeader_medium specHeader_def be_bytes_2)
  next
    case large
    then show ?thesis using assms by (simp add: frameHeader_large specHeader_def be_bytes_8)
  qed
qed

lemma length_be_bytes: "length (be_bytes n L) = n"
  by (induction n arbitrary: L) auto

lemma length_specHeader: "length (specHeader L) = headerSize L"
  by (simp add: specHeader_def headerSize_def length_be_bytes)

lemma mask_bit_clear: "\<not> bit (specHeader L ! 1) 7"
proof -
  have a: "\<not> bit (of_nat L :: byte) 7" if "L \<le> 125"
  proof -
    have "L < 2 ^ 7" using that by simp
    then have "\<not> bit L 7" by (rule nat_bit_high) simp
    then show ?thesis by (simp add: bit_simps)
  qed
  have b: "\<not> bit (126 :: byte) 7" by (simp add: bit_iff_odd drop_bit_eq_div)
  have c: "\<not> bit (127 :: byte) 7" by (simp add: bit_iff_odd drop_bit_eq_div)
  show ?thesis using a b c by (simp add: specHeader_def)
qed

text \<open>
  Claim C2. For a payload of \<open>L\<close> bytes (a slice length, below \<open>2^63\<close>) \<open>writeFrame\<close>
  hands to one \<open>Write\<close> the header of the encode contract followed by the raw payload:
  \<open>[0x81, L]\<close> for \<open>L \<le> 125\<close>, \<open>[0x81, 126, L_hi, L_lo]\<close> for \<open>126 \<le> L \<le> 65535\<close>,
  \<open>0x81, 127\<close> and eight big-endian length bytes above. The header has 2, 4 or 10
  bytes, so nothing stands between it and the payload, and bit 7 of header byte 1 (MASK)
  is clear.
\<close>

theorem writeFrame_emits:
  assumes "length message < 2 ^ 63"
  shows "writeFrame conn message = Write conn (specHeader (length message) @ message) \<and>
         length (specHeader (length message)) = headerSize (length message) \<and>
         \<not> bit (specHeader (length message) ! 1) 7"
proof (intro conjI)
  show "writeFrame conn message = Write conn (specHeader (length message) @ message)"
    using assms by (simp add: writeFrame_def frameHeader_spec)
  show "length (specHeader (length message)) = headerSize (length message)"
    by (rule length_specHeader)
  show "\<not> bit (specHeader (length message) ! 1) 7"
    by (rule mask_bit_clear)
qed

theorem writeFrame_emits_witness:
  "length [0x68, 0x69 :: byte] < 2 ^ 63 \<and>
   writeFrame \<lparr>written = [], write_err = None\<rparr> [0x68, 0x69] =
     (None, \<lparr>written = [[0x81, 2, 0x68, 0x69]], write_err = None\<rparr>)"
  using writeFrame_emits [of "[0x68, 0x69]" "\<lparr>written = [], write_err = None\<rparr>"]
  by (simp add: specHeader_def Write_def)

text \<open>
  Claim C1. For every payload of 0, 1, 125, 126, 65535, 65536 or 70000 bytes and every
  four-byte key: the frame that \<open>writeFrame\<close> writes, once the mask is injected, is
  decoded by \<open>readFrame\<close> to exactly the payload (the bytes after the frame stay in the
  stream), and the header of the frame has the size of the length-tier rule.
\<close>

theorem roundtrip_listed_lengths:
  assumes "length payload \<in> {0, 1, 125, 126, 65535, 65536, 70000}"
    and "length maskKey = 4" and "write_err conn = None"
  shows "\<exists>frame.
           writeFrame conn payload = (None, conn\<lparr>written := written conn @ [frame]\<rparr>) \<and>
           readFrame \<lparr>pending = injectMask maskKey frame @ rest, final_err = e\<rparr> =
             (Inr payload, \<lparr>pending = rest, final_err = e\<rparr>) \<and>
           length frame = headerSize (length payload) + length payload"
proof -
  have len: "length payload < 2 ^ 63" using assms(1) by auto
  let ?frame = "frameHeader (of_nat (length payload)) @ payload"
  have "writeFrame conn payload = (None, conn\<lparr>written := written conn @ [?frame]\<rparr>)"
    using assms(3) by (simp add: writeFrame_def Write_def)
  moreover have "readFrame \<lparr>pending = injectMask maskKey ?frame @ rest, final_err = e\<rparr> =
             (Inr payload, \<lparr>pending = rest, final_err = e\<rparr>)"
    using len assms(2) by (rule encode_decode)
  moreover have "length ?frame = headerSize (length payload) + length payload"
    using len by (simp add: frameHeader_spec length_specHeader)
  ultimately show ?thesis by blast
qed

theorem roundtrip_listed_lengths_witness:
  "length [0x68 :: byte] \<in> {0, 1, 125, 126, 65535, 65536, 70000} \<and>
   length [1, 2, 3, 4 :: byte] = 4 \<and>
   write_err \<lparr>written = [], write_err = None\<rparr> = None \<and>
   (\<exists>frame.
      writeFrame \<lparr>written = [], write_err = None\<rparr> [0x68] =
        (None, \<lparr>written = [frame], write_err = None\<rparr>) \<and>
      readFrame \<lparr>pending = injectMask [1, 2, 3, 4] frame @ [], final_err = EOF\<rparr> =
        (Inr [0x68], \<lparr>pending = [], final_err = EOF\<rparr>) \<and>
      length frame = 2 + 1)"
  using roundtrip_listed_lengths
    [of "[0x68]" "[1, 2, 3, 4]" "\<lparr>written = [], write_err = None\<rparr>" "[]" EOF]
  by (simp add: headerSize_def)

lemma list2: "length xs = 2 \<Longrightarrow> \<exists>a b. xs = [a, b]"
  by (cases xs; cases "tl xs") auto

lemma list8: "length xs = 8 \<Longrightarrow> \<exists>a b c d e f g h. xs = [a, b, c, d, e, f, g, h]"
  by (simp add: eval_nat_numeral length_Suc_conv) blast

lemma readLength_spec:
  assumes "length ext = extBytes h1"
  shows "readLength h1 \<lparr>pending = ext @ tail, final_err = e\<rparr> =
           (Inr (of_nat (trueLength h1 ext)), \<lparr>pending = tail, final_err = e\<rparr>)"
proof -
  let ?b = "h1 AND 0x7F"
  have ub: "unat ?b < 256" using unsigned_less [of ?b, where ?'a = nat] by simp
  have e126: "(ucast ?b :: gint) = 126 \<longleftrightarrow> baseLength h1 = 126"
    using gint_of_nat_eq_iff [of "unat ?b" 126] ub by (simp add: baseLength_def)
  have e127: "(ucast ?b :: gint) = 127 \<longleftrightarrow> baseLength h1 = 127"
    using gint_of_nat_eq_iff [of "unat ?b" 127] ub by (simp add: baseLength_def)
  consider (two) "baseLength h1 = 126" | (eight) "baseLength h1 = 127"
    | (base) "baseLength h1 \<noteq> 126" "baseLength h1 \<noteq> 127" by blast
  then show ?thesis
  proof cases
    case two
    then have "length ext = 2" using assms by (simp add: extBytes_def)
    then obtain a b where ext: "ext = [a, b]" using list2 [of ext] by blast
    show ?thesis using two e126 ext
      by (simp add: readLength_def ReadFull_def trueLength_def be_nat_2 del: be_nat.simps)
  next
    case eight
    then have "length ext = 8" using assms by (simp add: extBytes_def)
    then obtain a b c d e f g h where ext: "ext = [a, b, c, d, e, f, g, h]"
      using list8 [of ext] by blast
    show ?thesis using eight e126 e127 ext
      by (simp add: readLength_def ReadFull_def trueLength_def be_nat_8 del: be_nat.simps)
  next
    case base
    then have "ext = []" using assms by (simp add: extBytes_def)
    then show ?thesis using base e126 e127
      by (simp add: readLength_def trueLength_def baseLength_def)
  qed
qed

lemma readFrame_layout:
  assumes "length ext = extBytes h1" and "length maskKey = 4"
    and "trueLength h1 ext < 2 ^ 63" and "length body = trueLength h1 ext"
  shows "readFrame \<lparr>pending = h0 # h1 # ext @ maskKey @ body @ rest, final_err = e\<rparr> =
           (Inr (unmask maskKey 0 body), \<lparr>pending = rest, final_err = e\<rparr>)"
proof -
  have "readLength h1 \<lparr>pending = ext @ maskKey @ body @ rest, final_err = e\<rparr> =
          (Inr (of_nat (trueLength h1 ext)), \<lparr>pending = maskKey @ body @ rest, final_err = e\<rparr>)"
    using assms(1) by (rule readLength_spec)
  moreover have "0 \<le> sint (of_nat (trueLength h1 ext) :: gint)"
    and "length body = nat (sint (of_nat (trueLength h1 ext) :: gint))"
    using sint_of_nat_len [OF assms(3)] assms(4) by simp_all
  ultimately show ?thesis
    using assms(2) by (intro readFrame_decoded)
qed

lemma readFrame_short_key:
  assumes "length ext = extBytes h1" and "length short < 4"
  shows "readFrame \<lparr>pending = h0 # h1 # ext @ short, final_err = e\<rparr> =
           (Inl (Err (if short \<noteq> [] \<and> e = EOF then ErrUnexpectedEOF else e)),
            \<lparr>pending = [], final_err = e\<rparr>)"
proof -
  have "readLength h1 \<lparr>pending = ext @ short, final_err = e\<rparr> =
          (Inr (of_nat (trueLength h1 ext)), \<lparr>pending = short, final_err = e\<rparr>)"
    using assms(1) by (rule readLength_spec)
  then show ?thesis using assms(2)
    by (simp add: readFrame_def ReadFull_def)
qed

lemma sign_of_length:
  "sint (push_bit 56 (ucast (e0 :: byte)) OR push_bit 48 (ucast (e1 :: byte)) OR
         push_bit 40 (ucast (e2 :: byte)) OR push_bit 32 (ucast (e3 :: byte)) OR
         push_bit 24 (ucast (e4 :: byte)) OR push_bit 16 (ucast (e5 :: byte)) OR
         push_bit 8 (ucast (e6 :: byte)) OR ucast (e7 :: byte) :: gint) < 0 \<longleftrightarrow> bit e0 7"
  by (auto simp add: bit_last_iff [symmetric] bit_simps dest: bit_imp_le_length)

lemma readFrame_panics:
  assumes "baseLength h1 = 127" and "length maskKey = 4" and "bit e0 7"
  shows "readFrame \<lparr>pending = h0 # h1 # [e0, e1, e2, e3, e4, e5, e6, e7] @ maskKey @ rest,
                    final_err = e\<rparr> =
           (Inl (Panic MakesliceLen), \<lparr>pending = rest, final_err = e\<rparr>)"
proof -
  let ?ext = "[e0, e1, e2, e3, e4, e5, e6, e7]"
  have x: "length ?ext = extBytes h1" using assms(1) by (simp add: extBytes_def)
  have t: "trueLength h1 ?ext = be_nat ?ext" using assms(1) by (simp add: trueLength_def)
  have rl: "readLength h1 \<lparr>pending = ?ext @ maskKey @ rest, final_err = e\<rparr> =
          (Inr (of_nat (be_nat ?ext)), \<lparr>pending = maskKey @ rest, final_err = e\<rparr>)"
    using readLength_spec [OF x] unfolding t .
  have neg: "sint (of_nat (be_nat ?ext) :: gint) < 0"
    using assms(3) unfolding be_nat_8 [symmetric] sign_of_length .
  show ?thesis using rl neg assms(2)
    by (simp add: readFrame_def ReadFull_def make_bytes_def del: be_nat.simps)
qed

text \<open>
  Claim C4. With base length 126 \<open>readFrame\<close> reads two further bytes, with 127 eight,
  and otherwise none; the length it computes (lines 98 to 115) is the big-endian value
  of those bytes, or the base length itself, and it is the number of payload bytes that
  the call takes from the stream after the mask key. (An eight-byte value from \<open>2^63\<close>
  on is a negative \<open>int\<close>; that case is the subject of claim C10.)
\<close>

theorem readFrame_length_tiers:
  assumes "length ext = extBytes h1" and "length maskKey = 4"
    and "trueLength h1 ext < 2 ^ 63" and "length body = trueLength h1 ext"
  shows "readLength h1 \<lparr>pending = ext @ maskKey @ body @ rest, final_err = e\<rparr> =
           (Inr (of_nat (trueLength h1 ext)),
            \<lparr>pending = maskKey @ body @ rest, final_err = e\<rparr>) \<and>
         readFrame \<lparr>pending = h0 # h1 # ext @ maskKey @ body @ rest, final_err = e\<rparr> =
           (Inr (unmask maskKey 0 body), \<lparr>pending = rest, final_err = e\<rparr>)"
  using readLength_spec [OF assms(1)] readFrame_layout [OF assms] by simp

theorem readFrame_length_tiers_witness:
  "length [0, 3 :: byte] = extBytes 0xFE \<and> length [1, 2, 3, 4 :: byte] = 4 \<and>
   trueLength 0xFE [0, 3] < 2 ^ 63 \<and> length [0x10, 0x20, 0x30 :: byte] = trueLength 0xFE [0, 3] \<and>
   readFrame \<lparr>pending = [0x81, 0xFE, 0, 3, 1, 2, 3, 4, 0x10, 0x20, 0x30, 0x99], final_err = EOF\<rparr> =
     (Inr [0x11, 0x22, 0x33], \<lparr>pending = [0x99], final_err = EOF\<rparr>)"
  using readFrame_length_tiers [of "[0, 3]" "0xFE" "[1, 2, 3, 4]" "[0x10, 0x20, 0x30]" "[0x99]" EOF "0x81"]
  by (simp add: extBytes_def trueLength_def baseLength_def)

text \<open>
  Claim C5. Whatever header byte 1 is, so with the MASK flag set or clear, \<open>readFrame\<close>
  takes the four bytes after the length fields as mask key and returns the payload with
  byte \<open>i\<close> XORed with \<open>maskKey[i % 4]\<close>; a masked frame is thereby unmasked. If fewer
  than four bytes follow the length fields, the call fails with the stream's error, also
  when the flag is clear.
\<close>

theorem readFrame_mask_key:
  assumes "length ext = extBytes h1"
  shows "(length maskKey = 4 \<and> trueLength h1 ext < 2 ^ 63 \<and> length body = trueLength h1 ext \<longrightarrow>
            readFrame \<lparr>pending = h0 # h1 # ext @ maskKey @ body @ rest, final_err = e\<rparr> =
              (Inr (maskPayload maskKey body), \<lparr>pending = rest, final_err = e\<rparr>)) \<and>
         (length short < 4 \<longrightarrow>
            readFrame \<lparr>pending = h0 # h1 # ext @ short, final_err = e\<rparr> =
              (Inl (Err (if short \<noteq> [] \<and> e = EOF then ErrUnexpectedEOF else e)),
               \<lparr>pending = [], final_err = e\<rparr>))"
proof -
  have "maskPayload maskKey body = unmask maskKey 0 body"
    by (simp add: maskPayload_def unmask_map)
  then show ?thesis
    using readFrame_layout [OF assms, of maskKey body h0 rest e]
      readFrame_short_key [OF assms, of short h0 e]
    by simp
qed

theorem readFrame_mask_key_witness:
  "length ([] :: byte list) = extBytes 0x02 \<and>
   length [1, 2, 3, 4 :: byte] = 4 \<and> trueLength 0x02 [] < 2 ^ 63 \<and>
   length [0x10, 0x20 :: byte] = trueLength 0x02 [] \<and> length [7, 7 :: byte] < 4 \<and>
   readFrame \<lparr>pending = [0x81, 0x02, 1, 2, 3, 4, 0x10, 0x20], final_err = EOF\<rparr> =
     (Inr [0x11, 0x22], \<lparr>pending = [], final_err = EOF\<rparr>) \<and>
   readFrame \<lparr>pending = [0x81, 0x02, 7, 7], final_err = EOF\<rparr> =
     (Inl (Err ErrUnexpectedEOF), \<lparr>pending = [], final_err = EOF\<rparr>)"
  using readFrame_mask_key [of "[]" "0x02" "[1, 2, 3, 4]" "[0x10, 0x20]" "0x81" "[]" EOF "[7, 7]"]
  by (simp add: extBytes_def trueLength_def baseLength_def maskPayload_def upt_rec_numeral)

text \<open>
  Claim C10. In the 127 tier the length is assembled by shifts on the signed \<open>int\<close>.
  When bit 63 of the eight-byte field is set (bit 7 of its first byte), the length is
  negative and the allocation of the payload buffer panics, once the mask key has been
  read; no error is returned. When it is clear, any length up to \<open>2^63 - 1\<close> is accepted
  and that many bytes are read: no bound is checked before the allocation.
\<close>

theorem readFrame_negative_length:
  assumes "baseLength h1 = 127" and "length maskKey = 4"
  shows "(bit e0 7 \<longrightarrow>
            sint (of_nat (trueLength h1 [e0, e1, e2, e3, e4, e5, e6, e7]) :: gint) < 0 \<and>
            readFrame \<lparr>pending = h0 # h1 # [e0, e1, e2, e3, e4, e5, e6, e7] @ maskKey @ rest,
                       final_err = e\<rparr> =
              (Inl (Panic MakesliceLen), \<lparr>pending = rest, final_err = e\<rparr>)) \<and>
         (be_nat [e0, e1, e2, e3, e4, e5, e6, e7] < 2 ^ 63 \<and>
          length body = be_nat [e0, e1, e2, e3, e4, e5, e6, e7] \<longrightarrow>
            readFrame \<lparr>pending = h0 # h1 # [e0, e1, e2, e3, e4, e5, e6, e7] @ maskKey @ body @ rest,
                       final_err = e\<rparr> =
              (Inr (unmask maskKey 0 body), \<lparr>pending = rest, final_err = e\<rparr>))"
proof -
  let ?ext = "[e0, e1, e2, e3, e4, e5, e6, e7]"
  have x: "length ?ext = extBytes h1" using assms(1) by (simp add: extBytes_def)
  have t: "trueLength h1 ?ext = be_nat ?ext" using assms(1) by (simp add: trueLength_def)
  have neg: "sint (of_nat (be_nat ?ext) :: gint) < 0" if "bit e0 7"
    using that unfolding be_nat_8 [symmetric] sign_of_length .
  have ok: "readFrame \<lparr>pending = h0 # h1 # ?ext @ maskKey @ body @ rest, final_err = e\<rparr> =
              (Inr (unmask maskKey 0 body), \<lparr>pending = rest, final_err = e\<rparr>)"
    if "be_nat ?ext < 2 ^ 63" "length body = be_nat ?ext"
    using readFrame_layout [OF x assms(2), of body h0 rest e] that unfolding t by blast
  show ?thesis
    using neg ok readFrame_panics [OF assms, of e0 h0 e1 e2 e3 e4 e5 e6 e7 rest e] unfolding t
    by blast
qed

theorem readFrame_negative_length_witness:
  "baseLength 0xFF = 127 \<and> length [1, 2, 3, 4 :: byte] = 4 \<and> bit (0x80 :: byte) 7 \<and>
   be_nat [0, 0, 0, 0, 0, 0, 0, 1] < 2 ^ 63 \<and>
   length [0x10 :: byte] = be_nat [0, 0, 0, 0, 0, 0, 0, 1] \<and>
   readFrame \<lparr>pending = [0x81, 0xFF, 0x80, 0, 0, 0, 0, 0, 0, 0, 1, 2, 3, 4, 0x10],
              final_err = EOF\<rparr> =
     (Inl (Panic MakesliceLen), \<lparr>pending = [0x10], final_err = EOF\<rparr>) \<and>
   readFrame \<lparr>pending = [0x81, 0xFF, 0, 0, 0, 0, 0, 0, 0, 1, 1, 2, 3, 4, 0x10],
              final_err = EOF\<rparr> =
     (Inr [0x11], \<lparr>pending = [], final_err = EOF\<rparr>)"
  using readFrame_negative_length
      [of "0xFF" "[1, 2, 3, 4]" "0x80" 0 0 0 0 0 0 0 "0x81" "[0x10]" EOF]
    readFrame_negative_length
      [of "0xFF" "[1, 2, 3, 4]" 0 0 0 0 0 0 0 1 "0x81" "[]" EOF "[0x10]"]
  by (simp add: baseLength_def bit_iff_odd drop_bit_eq_div)

section \<open>The older codec differs\<close>

text \<open>
  The older \<open>readFrame\<close> answers the 127 tier with an error; it returns an unmasked frame
  as it is, where the newer one takes the first four payload bytes as key; and the older
  \<open>writeFrame\<close> gives a payload of 126 bytes the two-byte header \<open>[0x81, 126]\<close>.
\<close>

lemma part0_rejects_127:
  "fst (readFrame_part0 \<lparr>pending = 0x81 # 0xFF # rest, final_err = e\<rparr>) = Inl (Err FrameTooLarge)"
  by (simp add: readFrame_part0_def ReadFull_def)

lemma part0_unmasked_frame:
  "readFrame_part0 \<lparr>pending = [0x81, 0x02, 0x68, 0x69], final_err = EOF\<rparr> =
     (Inr [0x68, 0x69], \<lparr>pending = [], final_err = EOF\<rparr>)"
  "readFrame \<lparr>pending = [0x81, 0x02, 0x68, 0x69], final_err = EOF\<rparr> =
     (Inl (Err ErrUnexpectedEOF), \<lparr>pending = [], final_err = EOF\<rparr>)"
  by (simp_all add: readFrame_part0_def readFrame_def readLength_def ReadFull_def make_bytes_def)

lemma part0_two_byte_header:
  assumes "length message = 126"
  shows "writeFrame_part0 conn message = Write conn ([0x81, 126] @ message)"
    and "specHeader (length message) = [0x81, 126, 0, 126]"
  using assms by (simp_all add: writeFrame_part0_def specHeader_def be_bytes_2)

section \<open>The test vector of the handshake\<close>

lemma vector_message:
  "bytes_of (''dGhlIHNhbXBsZSBub25jZQ=='' @ wsGUID) =
     [100, 71, 104, 108, 73, 72, 78, 104, 98, 88, 66, 115, 90, 83, 66, 117, 98, 50, 53, 106,
      90, 81, 61, 61, 50, 53, 56, 69, 65, 70, 65, 53, 45, 69, 57, 49, 52, 45, 52, 55, 68, 65,
      45, 57, 53, 67, 65, 45, 67, 53, 65, 66, 48, 68, 67, 56, 53, 66, 49, 49]"
  by (simp add: bytes_of_def wsGUID_def)

lemma vector_padded:
  "sha1_pad
     [100, 71, 104, 108, 73, 72, 78, 104, 98, 88, 66, 115, 90, 83, 66, 117, 98, 50, 53, 106,
      90, 81, 61, 61, 50, 53, 56, 69, 65, 70, 65, 53, 45, 69, 57, 49, 52, 45, 52, 55, 68, 65,
      45, 57, 53, 67, 65, 45, 67, 53, 65, 66, 48, 68, 67, 56, 53, 66, 49, 49] =
     [100, 71, 104, 108, 73, 72, 78, 104, 98, 88, 66, 115, 90, 83, 66, 117, 98, 50, 53, 106,
      90, 81, 61, 61, 50, 53, 56, 69, 65, 70, 65, 53, 45, 69, 57, 49, 52, 45, 52, 55, 68, 65,
      45, 57, 53, 67, 65, 45, 67, 53, 65, 66, 48, 68, 67, 56, 53, 66, 49, 49, 128, 0, 0, 0, 0,
      0, 0, 0, 0, 0, 0, 0, 0, 0, 0, 0, 0, 0, 0, 0, 0, 0, 0, 0, 0, 0, 0, 0, 0, 0, 0, 0, 0, 0, 0,
      0, 0, 0, 0, 0, 0, 0, 0, 0, 0, 0, 0, 0, 0, 0, 0, 0, 0, 0, 0, 0, 0, 0, 0, 0, 0, 0, 0, 0, 0,
      0, 1, 224]"
proof -
  have "replicate 59 (0 :: byte) =
     [0, 0, 0, 0, 0, 0, 0, 0, 0, 0, 0, 0, 0, 0, 0, 0, 0, 0, 0, 0, 0, 0, 0, 0, 0, 0, 0, 0, 0, 0,
      0, 0, 0, 0, 0, 0, 0, 0, 0, 0, 0, 0, 0, 0, 0, 0, 0, 0, 0, 0, 0, 0, 0, 0, 0, 0, 0, 0, 0]"
    by (simp add: numeral_eq_Suc)
  then show ?thesis
    by (simp add: sha1_pad_def put64_def)
qed

lemma vector_words_1:
  "words_of
     [100, 71, 104, 108, 73, 72, 78, 104, 98, 88, 66, 115, 90, 83, 66, 117, 98, 50, 53, 106,
      90, 81, 61, 61, 50, 53, 56, 69, 65, 70, 65, 53, 45, 69, 57, 49, 52, 45, 52, 55, 68, 65,
      45, 57, 53, 67, 65, 45, 67, 53, 65, 66, 48, 68, 67, 56, 53, 66, 49, 49, 128, 0, 0, 0] =
     [1682401388, 1229475432, 1649951347, 1515405941, 1647457642, 1515273533, 842348613,
      1095123253, 759511345, 875377719, 1145122105, 893600045, 1127563586, 809780024,
      893530417, 2147483648]"
  by (simp add: be32_def)

lemma vector_schedule_1:
  "schedule
     [1682401388, 1229475432, 1649951347, 1515405941, 1647457642, 1515273533, 842348613,
      1095123253, 759511345, 875377719, 1145122105, 893600045, 1127563586, 809780024,
      893530417, 2147483648] =
     [1682401388, 1229475432, 1649951347, 1515405941, 1647457642, 1515273533, 842348613,
      1095123253, 759511345, 875377719, 1145122105, 893600045, 1127563586, 809780024,
      893530417, 2147483648, 909942828, 619188790, 2287383617, 117128338, 1874115766,
      1175131875, 1502747054, 901747561, 845628814, 4163435780, 1966773927, 1664546322,
      3285607299, 116098809, 1941241154, 2768487864, 365801013, 1394499013, 1874245584,
      1813439660, 1306343101, 903047494, 3903753116, 1251162832, 3464898740, 1096661662,
      663941193, 2392553959, 2042897861, 1666430109, 10043928, 2325024465, 2942110617,
      4254630878, 517537771, 4027055912, 1113470580, 93729216, 2909551665, 2248896983,
      2277492040, 1046804781, 2366289761, 887221813, 181358856, 3266607578, 1821587210,
      4153629601, 3910963649, 3201394082, 1279150782, 1356423736, 3059252702, 439281382,
      758339734, 4081671435, 4077783581, 852382809, 1902502840, 2869297044, 3314851595,
      3168292426, 124912530, 4282382342]"
  by (simp add: schedule_def rotl_def upt_rec_numeral)

lemma vector_rounds_1_1:
  "rounds Ch 1518500249
     (take 20
     [1682401388, 1229475432, 1649951347, 1515405941, 1647457642, 1515273533, 842348613,
      1095123253, 759511345, 875377719, 1145122105, 893600045, 1127563586, 809780024,
      893530417, 2147483648, 909942828, 619188790, 2287383617, 117128338, 1874115766,
      1175131875, 1502747054, 901747561, 845628814, 4163435780, 1966773927, 1664546322,
      3285607299, 116098809, 1941241154, 2768487864, 365801013, 1394499013, 1874245584,
      1813439660, 1306343101, 903047494, 3903753116, 1251162832, 3464898740, 1096661662,
      663941193, 2392553959, 2042897861, 1666430109, 10043928, 2325024465, 2942110617,
      4254630878, 517537771, 4027055912, 1113470580, 93729216, 2909551665, 2248896983,
      2277492040, 1046804781, 2366289761, 887221813, 181358856, 3266607578, 1821587210,
      4153629601, 3910963649, 3201394082, 1279150782, 1356423736, 3059252702, 439281382,
      758339734, 4081671435, 4077783581, 852382809, 1902502840, 2869297044, 3314851595,
      3168292426, 124912530, 4282382342])
     (1732584193, 4023233417, 2562383102, 271733878, 3285377520) =
     (152746364, 2378502326, 3752774234, 1979104605, 671166746)"
  by (simp add: rotl_def Ch_def)

lemma vector_rounds_1_2:
  "rounds Parity 1859775393
     (take 20 (drop 20
     [1682401388, 1229475432, 1649951347, 1515405941, 1647457642, 1515273533, 842348613,
      1095123253, 759511345, 875377719, 1145122105, 893600045, 1127563586, 809780024,
      893530417, 2147483648, 909942828, 619188790, 2287383617, 117128338, 1874115766,
      1175131875, 1502747054, 901747561, 845628814, 4163435780, 1966773927, 1664546322,
      3285607299, 116098809, 1941241154, 2768487864, 365801013, 1394499013, 1874245584,
      1813439660, 1306343101, 903047494, 3903753116, 1251162832, 3464898740, 1096661662,
      663941193, 2392553959, 2042897861, 1666430109, 10043928, 2325024465, 2942110617,
      4254630878, 517537771, 4027055912, 1113470580, 93729216, 2909551665, 2248896983,
      2277492040, 1046804781, 2366289761, 887221813, 181358856, 3266607578, 1821587210,
      4153629601, 3910963649, 3201394082, 1279150782, 1356423736, 3059252702, 439281382,
      758339734, 4081671435, 4077783581, 852382809, 1902502840, 2869297044, 3314851595,
      3168292426, 124912530, 4282382342]))
     (152746364, 2378502326, 3752774234, 1979104605, 671166746) =
     (732088382, 3498479745, 438141449, 3543353481, 662299890)"
  by (simp add: rotl_def Parity_def)

lemma vector_rounds_1_3:
  "rounds Maj 2400959708
     (take 20 (drop 40
     [1682401388, 1229475432, 1649951347, 1515405941, 1647457642, 1515273533, 842348613,
      1095123253, 759511345, 875377719, 1145122105, 893600045, 1127563586, 809780024,
      893530417, 2147483648, 909942828, 619188790, 2287383617, 117128338, 1874115766,
      1175131875, 1502747054, 901747561, 845628814, 4163435780, 1966773927, 1664546322,
      3285607299, 116098809, 1941241154, 2768487864, 365801013, 1394499013, 1874245584,
      1813439660, 1306343101, 903047494, 3903753116, 1251162832, 3464898740, 1096661662,
      663941193, 2392553959, 2042897861, 1666430109, 10043928, 2325024465, 2942110617,
      4254630878, 517537771, 4027055912, 1113470580, 93729216, 2909551665, 2248896983,
      2277492040, 1046804781, 2366289761, 887221813, 181358856, 3266607578, 1821587210,
      4153629601, 3910963649, 3201394082, 1279150782, 1356423736, 3059252702, 439281382,
      758339734, 4081671435, 4077783581, 852382809, 1902502840, 2869297044, 3314851595,
      3168292426, 124912530, 4282382342]))
     (732088382, 3498479745, 438141449, 3543353481, 662299890) =
     (1215486042, 3531927907, 2198413067, 465420221, 2676265148)"
  by (simp add: rotl_def Maj_def)

lemma vector_rounds_1_4:
  "rounds Parity 3395469782
     (drop 60
     [1682401388, 1229475432, 1649951347, 1515405941, 1647457642, 1515273533, 842348613,
      1095123253, 759511345, 875377719, 1145122105, 893600045, 1127563586, 809780024,
      893530417, 2147483648, 909942828, 619188790, 2287383617, 117128338, 1874115766,
      1175131875, 1502747054, 901747561, 845628814, 4163435780, 1966773927, 1664546322,
      3285607299, 116098809, 1941241154, 2768487864, 365801013, 1394499013, 1874245584,
      1813439660, 1306343101, 903047494, 3903753116, 1251162832, 3464898740, 1096661662,
      663941193, 2392553959, 2042897861, 1666430109, 10043928, 2325024465, 2942110617,
      4254630878, 517537771, 4027055912, 1113470580, 93729216, 2909551665, 2248896983,
      2277492040, 1046804781, 2366289761, 887221813, 181358856, 3266607578, 1821587210,
      4153629601, 3910963649, 3201394082, 1279150782, 1356423736, 3059252702, 439281382,
      758339734, 4081671435, 4077783581, 852382809, 1902502840, 2869297044, 3314851595,
      3168292426, 124912530, 4282382342])
     (1215486042, 3531927907, 2198413067, 465420221, 2676265148) =
     (4102706214, 2203686369, 633413371, 1246086146, 2591277810)"
  by (simp add: rotl_def Parity_def)

lemma vector_block_1:
  "sha1_block (1732584193, 4023233417, 2562383102, 271733878, 3285377520)
     [100, 71, 104, 108, 73, 72, 78, 104, 98, 88, 66, 115, 90, 83, 66, 117, 98, 50, 53, 106,
      90, 81, 61, 61, 50, 53, 56, 69, 65, 70, 65, 53, 45, 69, 57, 49, 52, 45, 52, 55, 68, 65,
      45, 57, 53, 67, 65, 45, 67, 53, 65, 66, 48, 68, 67, 56, 53, 66, 49, 49, 128, 0, 0, 0] =
     (1540323111, 1931952490, 3195796473, 1517820024, 1581688034)"
  unfolding sha1_block_def Let_def vector_words_1 vector_schedule_1 vector_rounds_1_1 vector_rounds_1_2 vector_rounds_1_3 vector_rounds_1_4
  by simp

lemma vector_words_2:
  "words_of
     [0, 0, 0, 0, 0, 0, 0, 0, 0, 0, 0, 0, 0, 0, 0, 0, 0, 0, 0, 0, 0, 0, 0, 0, 0, 0, 0, 0, 0, 0,
      0, 0, 0, 0, 0, 0, 0, 0, 0, 0, 0, 0, 0, 0, 0, 0, 0, 0, 0, 0, 0, 0, 0, 0, 0, 0, 0, 0, 0, 0,
      0, 0, 1, 224] =
     [0, 0, 0, 0, 0, 0, 0, 0, 0, 0, 0, 0, 0, 0, 0, 480]"
  by (simp add: be32_def)

lemma vector_schedule_2:
  "schedule
     [0, 0, 0, 0, 0, 0, 0, 0, 0, 0, 0, 0, 0, 0, 0, 480] =
     [0, 0, 0, 0, 0, 0, 0, 0, 0, 0, 0, 0, 0, 0, 0, 480, 0, 0, 960, 0, 0, 1920, 0, 960, 3840, 0,
      0, 7680, 0, 3264, 15360, 1088, 0, 30720, 3840, 13056, 61440, 3840, 0, 126720, 0, 52224,
      245760, 17280, 0, 495360, 65280, 206464, 983040, 61440, 13056, 2031360, 0, 833536,
      3932160, 264960, 61440, 7929600, 1044480, 3376896, 15728640, 1032960, 61440, 32488192, 0,
      13369344, 62976000, 4423680, 0, 126812160, 16711680, 52862464, 251658240, 15790080,
      3357696, 520062976, 0, 213420032, 1006694400, 67783168]"
  by (simp add: schedule_def rotl_def upt_rec_numeral)

lemma vector_rounds_2_1:
  "rounds Ch 1518500249
     (take 20
     [0, 0, 0, 0, 0, 0, 0, 0, 0, 0, 0, 0, 0, 0, 0, 480, 0, 0, 960, 0, 0, 1920, 0, 960, 3840, 0,
      0, 7680, 0, 3264, 15360, 1088, 0, 30720, 3840, 13056, 61440, 3840, 0, 126720, 0, 52224,
      245760, 17280, 0, 495360, 65280, 206464, 983040, 61440, 13056, 2031360, 0, 833536,
      3932160, 264960, 61440, 7929600, 1044480, 3376896, 15728640, 1032960, 61440, 32488192, 0,
      13369344, 62976000, 4423680, 0, 126812160, 16711680, 52862464, 251658240, 15790080,
      3357696, 520062976, 0, 213420032, 1006694400, 67783168])
     (1540323111, 1931952490, 3195796473, 1517820024, 1581688034) =
     (704678737, 790182409, 2626053057, 2394280195, 639335578)"
  by (simp add: rotl_def Ch_def)

lemma vector_rounds_2_2:
  "rounds Parity 1859775393
     (take 20 (drop 20
     [0, 0, 0, 0, 0, 0, 0, 0, 0, 0, 0, 0, 0, 0, 0, 480, 0, 0, 960, 0, 0, 1920, 0, 960, 3840, 0,
      0, 7680, 0, 3264, 15360, 1088, 0, 30720, 3840, 13056, 61440, 3840, 0, 126720, 0, 52224,
      245760, 17280, 0, 495360, 65280, 206464, 983040, 61440, 13056, 2031360, 0, 833536,
      3932160, 264960, 61440, 7929600, 1044480, 3376896, 15728640, 1032960, 61440, 32488192, 0,
      13369344, 62976000, 4423680, 0, 126812160, 16711680, 52862464, 251658240, 15790080,
      3357696, 520062976, 0, 213420032, 1006694400, 67783168]))
     (704678737, 790182409, 2626053057, 2394280195, 639335578) =
     (1869188890, 3338603731, 3730487228, 1601125563, 497322629)"
  by (simp add: rotl_def Parity_def)

lemma vector_rounds_2_3:
  "rounds Maj 2400959708
     (take 20 (drop 40
     [0, 0, 0, 0, 0, 0, 0, 0, 0, 0, 0, 0, 0, 0, 0, 480, 0, 0, 960, 0, 0, 1920, 0, 960, 3840, 0,
      0, 7680, 0, 3264, 15360, 1088, 0, 30720, 3840, 13056, 61440, 3840, 0, 126720, 0, 52224,
      245760, 17280, 0, 495360, 65280, 206464, 983040, 61440, 13056, 2031360, 0, 833536,
      3932160, 264960, 61440, 7929600, 1044480, 3376896, 15728640, 1032960, 61440, 32488192, 0,
      13369344, 62976000, 4423680, 0, 126812160, 16711680, 52862464, 251658240, 15790080,
      3357696, 520062976, 0, 213420032, 1006694400, 67783168]))
     (1869188890, 3338603731, 3730487228, 1601125563, 497322629) =
     (1443995417, 140423934, 1212818885, 3242250216, 1752014928)"
  by (simp add: rotl_def Maj_def)

lemma vector_rounds_2_4:
  "rounds Parity 3395469782
     (drop 60
     [0, 0, 0, 0, 0, 0, 0, 0, 0, 0, 0, 0, 0, 0, 0, 480, 0, 0, 960, 0, 0, 1920, 0, 960, 3840, 0,
      0, 7680, 0, 3264, 15360, 1088, 0, 30720, 3840, 13056, 61440, 3840, 0, 126720, 0, 52224,
      245760, 17280, 0, 495360, 65280, 206464, 983040, 61440, 13056, 2031360, 0, 833536,
      3932160, 264960, 61440, 7929600, 1044480, 3376896, 15728640, 1032960, 61440, 32488192, 0,
      13369344, 62976000, 4423680, 0, 126812160, 16711680, 52862464, 251658240, 15790080,
      3357696, 520062976, 0, 213420032, 1006694400, 67783168])
     (1443995417, 140423934, 1212818885, 3242250216, 1752014928) =
     (1470814213, 1295715756, 3531229709, 1958756557, 1417158664)"
  by (simp add: rotl_def Parity_def)

lemma vector_block_2:
  "sha1_block (1540323111, 1931952490, 3195796473, 1517820024, 1581688034)
     [0, 0, 0, 0, 0, 0, 0, 0, 0, 0, 0, 0, 0, 0, 0, 0, 0, 0, 0, 0, 0, 0, 0, 0, 0, 0, 0, 0, 0, 0,
      0, 0, 0, 0, 0, 0, 0, 0, 0, 0, 0, 0, 0, 0, 0, 0, 0, 0, 0, 0, 0, 0, 0, 0, 0, 0, 0, 0, 0, 0,
      0, 0, 1, 224] =
     (3011137324, 3227668246, 2432058886, 3476576581, 2998846698)"
  unfolding sha1_block_def Let_def vector_words_2 vector_schedule_2 vector_rounds_2_1 vector_rounds_2_2 vector_rounds_2_3 vector_rounds_2_4
  by simp

lemma vector_digest:
  "sha1_Sum (bytes_of (''dGhlIHNhbXBsZSBub25jZQ=='' @ wsGUID)) =
     [179, 122, 79, 44, 192, 98, 79, 22, 144, 246, 70, 6, 207, 56, 89, 69, 178, 190, 196, 234]"
  unfolding sha1_Sum_def vector_message vector_padded
  apply (subst sha1_blocks.simps, simp add: vector_block_1)
  apply (subst sha1_blocks.simps, simp add: vector_block_2)
  apply (subst sha1_blocks.simps, simp add: put32_def)
  done

lemma vector_base64:
  "EncodeToString
     [179, 122, 79, 44, 192, 98, 79, 22, 144, 246, 70, 6, 207, 56, 89, 69, 178, 190, 196, 234] =
     ''s3pPLMBiTxaQ9kYGzzhZRbK+xOo=''"
  by (simp add: b64_def encodeStd_def)

section \<open>Properties of the handshake and the connection loop\<close>

lemma rejected:
  assumes "ToLower (Header_Get h ''Upgrade'') \<noteq> ''websocket'' \<or>
           \<not> Contains (ToLower (Header_Get h ''Connection'')) ''upgrade'' \<or>
           Header_Get h ''Sec-WebSocket-Key'' = []"
  shows "UpgradeToWebSocket w h = [HttpError ''Invalid WebSocket handshake'' 400] \<or>
         UpgradeToWebSocket w h = [HttpError ''Missing Sec-WebSocket-Key'' 400]"
  using assms by (auto simp add: UpgradeToWebSocket_def Let_def)

text \<open>
  Claim C7. A request whose \<open>Upgrade\<close> header is not \<open>websocket\<close> up to case, or whose
  \<open>Connection\<close> header does not contain \<open>upgrade\<close> up to case, or whose
  \<open>Sec-WebSocket-Key\<close> header is empty, is answered with status 400 and nothing else:
  the stream is not hijacked and no callback of the handler is called.
\<close>

theorem handshake_rejection:
  assumes "ToLower (Header_Get h ''Upgrade'') \<noteq> ''websocket'' \<or>
           \<not> Contains (ToLower (Header_Get h ''Connection'')) ''upgrade'' \<or>
           Header_Get h ''Sec-WebSocket-Key'' = []"
  shows "(\<exists>msg. UpgradeToWebSocket w h = [HttpError msg 400]) \<and>
         Hijacked \<notin> set (UpgradeToWebSocket w h) \<and>
         callbacks (UpgradeToWebSocket w h) = []"
  using rejected [OF assms, of w] by auto

theorem handshake_rejection_witness:
  "ToLower (Header_Get [''Connection'' \<mapsto> ''Upgrade'', ''Sec-WebSocket-Key'' \<mapsto> ''abc'']
     ''Upgrade'') \<noteq> ''websocket'' \<and>
   \<not> Contains (ToLower (Header_Get
     [''Upgrade'' \<mapsto> ''websocket'', ''Connection'' \<mapsto> ''close'',
      ''Sec-WebSocket-Key'' \<mapsto> ''abc''] ''Connection'')) ''upgrade'' \<and>
   Header_Get [''Upgrade'' \<mapsto> ''WebSocket'', ''Connection'' \<mapsto> ''Upgrade'']
     ''Sec-WebSocket-Key'' = [] \<and>
   callbacks (UpgradeToWebSocket (Hijackable sampleConn)
     [''Connection'' \<mapsto> ''Upgrade'', ''Sec-WebSocket-Key'' \<mapsto> ''abc'']) = [] \<and>
   callbacks (UpgradeToWebSocket (Hijackable sampleConn)
     [''Upgrade'' \<mapsto> ''websocket'', ''Connection'' \<mapsto> ''close'',
      ''Sec-WebSocket-Key'' \<mapsto> ''abc'']) = [] \<and>
   callbacks (UpgradeToWebSocket (Hijackable sampleConn)
     [''Upgrade'' \<mapsto> ''WebSocket'', ''Connection'' \<mapsto> ''Upgrade'']) = []"
  using handshake_rejection
      [of "[''Connection'' \<mapsto> ''Upgrade'', ''Sec-WebSocket-Key'' \<mapsto> ''abc'']"
        "Hijackable sampleConn"]
    handshake_rejection
      [of "[''Upgrade'' \<mapsto> ''websocket'', ''Connection'' \<mapsto> ''close'',
            ''Sec-WebSocket-Key'' \<mapsto> ''abc'']" "Hijackable sampleConn"]
    handshake_rejection
      [of "[''Upgrade'' \<mapsto> ''WebSocket'', ''Connection'' \<mapsto> ''Upgrade'']"
        "Hijackable sampleConn"]
  by (simp add: Header_Get_def ToLower_def)

lemma accepted:
  assumes "ToLower (Header_Get h ''Upgrade'') = ''websocket''"
    and "Contains (ToLower (Header_Get h ''Connection'')) ''upgrade''"
    and "Header_Get h ''Sec-WebSocket-Key'' \<noteq> []"
  shows "UpgradeToWebSocket (Hijackable c) h =
     (let response = bytes_of (response101 (EncodeToString (sha1_Sum (bytes_of
             (Header_Get h ''Sec-WebSocket-Key'' @ wsGUID)))))
      in case write_err (wr c) of
           Some err \<Rightarrow> [Hijacked, ConnWrite response (Some err), ConnClose]
         | None \<Rightarrow> [Hijacked, ConnWrite response None, Call OnConnect, Go ''handleWebSocket''] @
                    handleWebSocket (rd c))"
  using assms
  by (simp add: UpgradeToWebSocket_def Let_def Write_def response101_def split: option.splits)

text \<open>
  Claim C8. For an accepted request whose connection fails the write of the 101
  response, the handshake closes the connection and returns: the trace ends with
  \<open>Close\<close>, the connection loop is not started, and no callback is called, neither
  \<open>OnConnect\<close> nor \<open>OnClose\<close>.
\<close>

theorem handshake_write_failure:
  assumes "ToLower (Header_Get h ''Upgrade'') = ''websocket''"
    and "Contains (ToLower (Header_Get h ''Connection'')) ''upgrade''"
    and "Header_Get h ''Sec-WebSocket-Key'' \<noteq> []"
    and "write_err (wr c) = Some err"
  shows "(\<exists>response. UpgradeToWebSocket (Hijackable c) h =
            [Hijacked, ConnWrite response (Some err), ConnClose]) \<and>
         callbacks (UpgradeToWebSocket (Hijackable c) h) = []"
  using accepted [OF assms(1-3), of c] assms(4) by (simp add: Let_def)

lemma sampleHeader_valid:
  "ToLower (Header_Get sampleHeader ''Upgrade'') = ''websocket''"
  "Contains (ToLower (Header_Get sampleHeader ''Connection'')) ''upgrade''"
  "Header_Get sampleHeader ''Sec-WebSocket-Key'' = ''dGhlIHNhbXBsZSBub25jZQ==''"
  by code_simp+

theorem handshake_write_failure_witness:
  "ToLower (Header_Get sampleHeader ''Upgrade'') = ''websocket'' \<and>
   Contains (ToLower (Header_Get sampleHeader ''Connection'')) ''upgrade'' \<and>
   Header_Get sampleHeader ''Sec-WebSocket-Key'' \<noteq> [] \<and>
   write_err (wr \<lparr>rd = \<lparr>pending = [], final_err = EOF\<rparr>, wr = \<lparr>written = [], write_err = Some ConnError\<rparr>\<rparr>) = Some ConnError \<and>
   (\<exists>response. UpgradeToWebSocket
        (Hijackable \<lparr>rd = \<lparr>pending = [], final_err = EOF\<rparr>, wr = \<lparr>written = [], write_err = Some ConnError\<rparr>\<rparr>) sampleHeader =
      [Hijacked, ConnWrite response (Some ConnError), ConnClose]) \<and>
   callbacks (UpgradeToWebSocket
     (Hijackable \<lparr>rd = \<lparr>pending = [], final_err = EOF\<rparr>, wr = \<lparr>written = [], write_err = Some ConnError\<rparr>\<rparr>) sampleHeader) = []"
  using handshake_write_failure
    [of sampleHeader "\<lparr>rd = \<lparr>pending = [], final_err = EOF\<rparr>, wr = \<lparr>written = [], write_err = Some ConnError\<rparr>\<rparr>" ConnError]
  by (simp add: sampleHeader_valid)

text \<open>
  Claim C3. For every key of an accepted request, the token after
  \<open>Sec-WebSocket-Accept:\<close> in the response handed to the connection is the base64
  encoding of the SHA-1 digest of the key followed by the GUID
  \<open>258EAFA5-E914-47DA-95CA-C5AB0DC85B11\<close>; for the key \<open>dGhlIHNhbXBsZSBub25jZQ==\<close>
  that token is \<open>s3pPLMBiTxaQ9kYGzzhZRbK+xOo=\<close>.
\<close>

theorem accept_token:
  assumes "ToLower (Header_Get h ''Upgrade'') = ''websocket''"
    and "Contains (ToLower (Header_Get h ''Connection'')) ''upgrade''"
    and "Header_Get h ''Sec-WebSocket-Key'' = key" and "key \<noteq> []"
  shows "(\<exists>rest. UpgradeToWebSocket (Hijackable c) h =
            Hijacked #
            ConnWrite (bytes_of (response101 (EncodeToString (sha1_Sum (bytes_of
              (key @ ''258EAFA5-E914-47DA-95CA-C5AB0DC85B11'')))))) (write_err (wr c)) # rest) \<and>
         EncodeToString (sha1_Sum (bytes_of
           (''dGhlIHNhbXBsZSBub25jZQ=='' @ ''258EAFA5-E914-47DA-95CA-C5AB0DC85B11''))) =
           ''s3pPLMBiTxaQ9kYGzzhZRbK+xOo=''"
proof
  have k: "Header_Get h ''Sec-WebSocket-Key'' \<noteq> []" using assms(3,4) by simp
  show "\<exists>rest. UpgradeToWebSocket (Hijackable c) h =
            Hijacked #
            ConnWrite (bytes_of (response101 (EncodeToString (sha1_Sum (bytes_of
              (key @ ''258EAFA5-E914-47DA-95CA-C5AB0DC85B11'')))))) (write_err (wr c)) # rest"
    using accepted [OF assms(1,2) k, of c] assms(3)
    by (cases "write_err (wr c)") (simp_all add: Let_def wsGUID_def)
  have "EncodeToString (sha1_Sum (bytes_of (''dGhlIHNhbXBsZSBub25jZQ=='' @ wsGUID))) =
          ''s3pPLMBiTxaQ9kYGzzhZRbK+xOo=''"
    by (simp only: vector_digest vector_base64)
  then show "EncodeToString (sha1_Sum (bytes_of
           (''dGhlIHNhbXBsZSBub25jZQ=='' @ ''258EAFA5-E914-47DA-95CA-C5AB0DC85B11''))) =
           ''s3pPLMBiTxaQ9kYGzzhZRbK+xOo=''"
    by (simp only: wsGUID_def)
qed

theorem accept_token_witness:
  "ToLower (Header_Get sampleHeader ''Upgrade'') = ''websocket'' \<and>
   Contains (ToLower (Header_Get sampleHeader ''Connection'')) ''upgrade'' \<and>
   Header_Get sampleHeader ''Sec-WebSocket-Key'' = ''dGhlIHNhbXBsZSBub25jZQ=='' \<and>
   ''dGhlIHNhbXBsZSBub25jZQ=='' \<noteq> [] \<and>
   (\<exists>rest. UpgradeToWebSocket
        (Hijackable \<lparr>rd = \<lparr>pending = [], final_err = EOF\<rparr>, wr = \<lparr>written = [], write_err = None\<rparr>\<rparr>) sampleHeader =
      Hijacked # ConnWrite (bytes_of (response101 ''s3pPLMBiTxaQ9kYGzzhZRbK+xOo='')) None # rest)"
proof -
  have ne: "''dGhlIHNhbXBsZSBub25jZQ=='' \<noteq> []" by simp
  from accept_token [OF sampleHeader_valid ne,
      of "\<lparr>rd = \<lparr>pending = [], final_err = EOF\<rparr>, wr = \<lparr>written = [], write_err = None\<rparr>\<rparr>"]
  obtain rest where
    1: "UpgradeToWebSocket (Hijackable \<lparr>rd = \<lparr>pending = [], final_err = EOF\<rparr>, wr = \<lparr>written = [], write_err = None\<rparr>\<rparr>)
          sampleHeader =
        Hijacked #
        ConnWrite (bytes_of (response101 (EncodeToString (sha1_Sum (bytes_of
          (''dGhlIHNhbXBsZSBub25jZQ=='' @ ''258EAFA5-E914-47DA-95CA-C5AB0DC85B11''))))))
          (write_err (wr \<lparr>rd = \<lparr>pending = [], final_err = EOF\<rparr>, wr = \<lparr>written = [], write_err = None\<rparr>\<rparr>)) # rest"
    and 2: "EncodeToString (sha1_Sum (bytes_of
          (''dGhlIHNhbXBsZSBub25jZQ=='' @ ''258EAFA5-E914-47DA-95CA-C5AB0DC85B11''))) =
          ''s3pPLMBiTxaQ9kYGzzhZRbK+xOo=''"
    by blast
  have "UpgradeToWebSocket (Hijackable \<lparr>rd = \<lparr>pending = [], final_err = EOF\<rparr>, wr = \<lparr>written = [], write_err = None\<rparr>\<rparr>)
          sampleHeader =
        Hijacked # ConnWrite (bytes_of (response101 ''s3pPLMBiTxaQ9kYGzzhZRbK+xOo='')) None # rest"
    using 1 unfolding 2 by simp
  then show ?thesis using sampleHeader_valid by blast
qed

lemma callbacks_append: "callbacks (xs @ ys) = callbacks xs @ callbacks ys"
  by (induction xs rule: callbacks.induct) auto

lemma callbacks_accepted:
  assumes "ToLower (Header_Get h ''Upgrade'') = ''websocket''"
    and "Contains (ToLower (Header_Get h ''Connection'')) ''upgrade''"
    and "Header_Get h ''Sec-WebSocket-Key'' \<noteq> []"
    and "write_err (wr c) = None"
  shows "callbacks (UpgradeToWebSocket (Hijackable c) h) =
           OnConnect # OnConnect # callbacks (fst (readLoop (rd c))) @ [OnClose]"
  using accepted [OF assms(1-3), of c] assms(4)
  by (simp add: Let_def handleWebSocket_def callbacks_append split: prod.splits option.splits)

text \<open>
  Claim C6 says that the callbacks of a connection are \<open>OnConnect\<close> once, the messages
  in order, one \<open>OnError\<close> and \<open>OnClose\<close>. The code calls \<open>OnConnect\<close> in
  \<open>UpgradeToWebSocket\<close> (line 72) and again in \<open>handleWebSocket\<close> (line 168): for the
  accepted request below, whose stream carries the masked text frame \<open>hi\<close> and then
  ends, the handler sees \<open>OnConnect\<close> twice.
\<close>

theorem lifecycle_double_OnConnect:
  "callbacks (UpgradeToWebSocket
     (Hijackable \<lparr>rd = \<lparr>pending = [0x81, 0x82, 1, 2, 3, 4, 0x69, 0x6B], final_err = EOF\<rparr>,
                  wr = \<lparr>written = [], write_err = None\<rparr>\<rparr>) sampleHeader) =
     [OnConnect, OnConnect, OnMessage ''hi'', OnError EOF, OnClose]"
proof -
  have 1: "readFrame \<lparr>pending = [0x81, 0x82, 1, 2, 3, 4, 0x69, 0x6B], final_err = EOF\<rparr> =
             (Inr [0x68, 0x69], \<lparr>pending = [], final_err = EOF\<rparr>)"
    by (simp add: readFrame_def ReadFull_def readLength_def make_bytes_def)
  have 2: "readFrame \<lparr>pending = [], final_err = EOF\<rparr> =
             (Inl (Err EOF), \<lparr>pending = [], final_err = EOF\<rparr>)"
    by (simp add: readFrame_def ReadFull_def)
  have 3: "readLoop \<lparr>pending = [], final_err = EOF\<rparr> = ([Call (OnError EOF)], None)"
    by (subst readLoop.simps) (simp add: 2)
  have 4: "string_of [0x68, 0x69] = ''hi''"
    by code_simp
  have "readLoop \<lparr>pending = [0x81, 0x82, 1, 2, 3, 4, 0x69, 0x6B], final_err = EOF\<rparr> =
          ([Call (OnMessage ''hi''), Call (OnError EOF)], None)"
    by (subst readLoop.simps) (simp add: 1 3 4)
  then show ?thesis
    by (simp add: callbacks_accepted sampleHeader_valid)
qed

theorem lifecycle_double_OnConnect_witness:
  "count_list (callbacks (UpgradeToWebSocket
     (Hijackable \<lparr>rd = \<lparr>pending = [0x81, 0x82, 1, 2, 3, 4, 0x69, 0x6B], final_err = EOF\<rparr>,
                  wr = \<lparr>written = [], write_err = None\<rparr>\<rparr>) sampleHeader)) OnConnect = 2"
  using lifecycle_double_OnConnect by simp

end
